theory Spec2Isabelle
  imports Main "HOL-Library.Sublist"
begin

section \<open>Block ingestion and relevance filtering (blocksSaga.js)\<close>

text \<open>
  A shallow embedding of \<^verbatim>\<open>src/app/drizzle/store/blocks/blocksSaga.js\<close>.

  Conventions of the embedding.
  \<^item> Strings are \<^typ>\<open>string\<close>; every string the code inspects (addresses, topics) is a
    hexadecimal ASCII string, so \<^verbatim>\<open>toLowerCase\<close> is modelled on the letters A to Z.
  \<^item> A JavaScript value that may be \<^verbatim>\<open>null\<close> or \<^verbatim>\<open>undefined\<close> is an
    \<open>option\<close>; a string is falsy when it is absent or empty.
  \<^item> A call that may throw, and a promise that may reject, returns \<open>error + 'a\<close>
    (\<open>Inl\<close> the error).
  \<^item> A generator (saga) is a value of type \<open>('c, 'p, 'a) saga\<close>: the trace of the effects it yields
    (\<^verbatim>\<open>put\<close> of an action, a provider call that is awaited) together with its outcome,
    \<open>Inr\<close> the value it returns or \<open>Inl\<close> the error that escapes it.
  \<^item> The provider (\<^verbatim>\<open>web3\<close>), the registry (\<^verbatim>\<open>drizzle\<close>), and the store read by
    \<^verbatim>\<open>select\<close> are not part of the file; they are parameters of the model.
    Blocks, transactions, logs and subscriptions have the shape the code reads from them.
  \<^item> \<^verbatim>\<open>console.error\<close> is not modelled.
\<close>

subsection \<open>Data\<close>

datatype error = Error string

record log_entry =
  topics :: "string list"
  address :: string

record transaction =
  tx_from :: "string option"
  tx_to :: "string option"

record block =
  number :: nat
  transactions :: "transaction list"

record 'p subscription =
  addresses :: "string list"
  params :: 'p

text \<open>The store as read by \<^verbatim>\<open>selectAccount\<close> and \<^verbatim>\<open>selectContractsSubscriptions\<close>.\<close>

record 'p store =
  account :: "string option"
  subscriptions :: "'p subscription list"

text \<open>
  \<^verbatim>\<open>drizzle\<close>: the object \<^verbatim>\<open>drizzle.contracts\<close> as the list of its own properties in the
  order \<^verbatim>\<open>Object.keys\<close> enumerates them, and \<^verbatim>\<open>drizzle.findContractByAddress\<close>.
\<close>

record 'c drizzle =
  contracts :: "(string \<times> 'c) list"
  findContractByAddress :: "string \<Rightarrow> error + 'c option"

text \<open>
  \<^verbatim>\<open>web3\<close>: \<^verbatim>\<open>web3.eth.getBlock\<close>, \<^verbatim>\<open>web3.eth.getPastLogs\<close> (from block, to block,
  topics), \<^verbatim>\<open>web3.eth.getBalance\<close> and \<^verbatim>\<open>web3.utils.toChecksumAddress\<close>.
\<close>

record web3 =
  getBlock :: "nat \<Rightarrow> error + block"
  getPastLogs :: "nat \<Rightarrow> nat \<Rightarrow> string list \<Rightarrow> error + log_entry list"
  getBalance :: "string \<Rightarrow> error + nat"
  toChecksumAddress :: "string \<Rightarrow> error + string"

text \<open>The actions the file dispatches; \<^verbatim>\<open>syncAlways\<close> travels in the block events.\<close>

datatype ('c, 'p) action =
    BLOCKS_FAILED error
  | BLOCK_RECEIVED nat bool
  | BLOCK_FOUND block bool
  | BLOCK_PROCESSING block
  | CONTRACT_SYNCING "'c option"
  | BATCH_CALL_REQUEST "'p subscription list"
  | BLOCK_FAILED error
  | ACCOUNT_BALANCES_FETCHING
  | ETH_BALANCE_UPDATED nat

datatype provider_call =
    GetBlock nat
  | GetPastLogs nat nat "string list"
  | GetBalance string

datatype ('c, 'p) effect =
    Put "('c, 'p) action"
  | Await provider_call

subsection \<open>Sagas: effect trace and outcome\<close>

type_synonym ('c, 'p, 'a) saga = "('c, 'p) effect list \<times> (error + 'a)"

definition done_with :: "'a \<Rightarrow> ('c, 'p, 'a) saga" where
  "done_with x = ([], Inr x)"

definition and_then :: "('c, 'p, 'a) saga \<Rightarrow> ('a \<Rightarrow> ('c, 'p, 'b) saga) \<Rightarrow> ('c, 'p, 'b) saga" where
  "and_then m f =
     (case m of
        (t, Inl e) \<Rightarrow> (t, Inl e)
      | (t, Inr x) \<Rightarrow> (case f x of (t', r) \<Rightarrow> (t @ t', r)))"

definition put :: "('c, 'p) action \<Rightarrow> ('c, 'p, unit) saga" where
  "put a = ([Put a], Inr ())"

text \<open>\<^verbatim>\<open>yield promise\<close>: the call is issued, and its rejection is thrown into the saga.\<close>

definition await :: "provider_call \<Rightarrow> error + 'a \<Rightarrow> ('c, 'p, 'a) saga" where
  "await c r = ([Await c], r)"

text \<open>A synchronous computation inside a saga: no effect, its exception is the saga's.\<close>

definition compute :: "error + 'a \<Rightarrow> ('c, 'p, 'a) saga" where
  "compute r = ([], r)"

text \<open>\<^verbatim>\<open>try { m } catch (error) { h(error) }\<close>\<close>

definition try_catch :: "('c, 'p, 'a) saga \<Rightarrow> (error \<Rightarrow> ('c, 'p, 'a) saga) \<Rightarrow> ('c, 'p, 'a) saga" where
  "try_catch m h =
     (case m of
        (t, Inl e) \<Rightarrow> (case h e of (t', r) \<Rightarrow> (t @ t', r))
      | (t, Inr x) \<Rightarrow> (t, Inr x))"

text \<open>\<^verbatim>\<open>yield all([...])\<close> over effects that are dispatched in array order.\<close>

fun all_effects :: "('c, 'p, unit) saga list \<Rightarrow> ('c, 'p, unit) saga" where
  "all_effects [] = done_with ()"
| "all_effects (m # ms) = and_then m (\<lambda>_. all_effects ms)"

subsection \<open>JavaScript and lodash helpers\<close>

text \<open>\<^verbatim>\<open>!x\<close> on a string that may be absent.\<close>

definition falsy :: "string option \<Rightarrow> bool" where
  "falsy x = (case x of None \<Rightarrow> True | Some s \<Rightarrow> s = [])"

text \<open>\<^verbatim>\<open>x || ''\<close>\<close>

definition or_empty :: "string option \<Rightarrow> string" where
  "or_empty x = (case x of None \<Rightarrow> [] | Some s \<Rightarrow> s)"

text \<open>\<^verbatim>\<open>xs[i]\<close>: \<^verbatim>\<open>undefined\<close> out of range.\<close>

definition index :: "'a list \<Rightarrow> nat \<Rightarrow> 'a option" where
  "index xs i = (if i < length xs then Some (xs ! i) else None)"

definition toLowerCase_char :: "char \<Rightarrow> char" where
  "toLowerCase_char c =
     (case map_of (zip ''ABCDEFGHIJKLMNOPQRSTUVWXYZ'' ''abcdefghijklmnopqrstuvwxyz'') c of
        Some l \<Rightarrow> l
      | None \<Rightarrow> c)"

definition toLowerCase :: "string \<Rightarrow> string" where
  "toLowerCase s = map toLowerCase_char s"

text \<open>\<^verbatim>\<open>s.replace(/0x/, '')\<close>: the first occurrence of \<^verbatim>\<open>0x\<close> is removed, wherever it is.\<close>

fun replace_0x :: "string \<Rightarrow> string" where
  "replace_0x (a # b # cs) =
     (if a = CHR ''0'' \<and> b = CHR ''x'' then cs else a # replace_0x (b # cs))"
| "replace_0x cs = cs"

text \<open>
  \<^verbatim>\<open>_.endsWith(string, target)\<close>: \<^verbatim>\<open>position = string.length - target.length\<close>, and the
  result is \<^verbatim>\<open>position >= 0 && string.slice(position, string.length) == target\<close>.
\<close>

definition endsWith :: "string \<Rightarrow> string \<Rightarrow> bool" where
  "endsWith s target =
     (length target \<le> length s \<and> drop (length s - length target) s = target)"

text \<open>
  \<^verbatim>\<open>_.intersection(array, other)\<close>: the values of \<^verbatim>\<open>array\<close>, in its order, that are not
  yet in the result and are included in \<^verbatim>\<open>other\<close>; values are compared with
  SameValueZero, which on strings is equality of the strings.
\<close>

definition intersection :: "'a list \<Rightarrow> 'a list \<Rightarrow> 'a list" where
  "intersection array other =
     foldl (\<lambda>result v. if v \<notin> set result \<and> v \<in> set other
                         then result @ [v] else result) [] array"

text \<open>
  A JavaScript object with string keys: the list of its properties in insertion order.
  Assigning to a key that exists keeps its place. (\<^verbatim>\<open>Object.keys\<close> moves keys that are
  canonical array indices to the front; \<^const>\<open>intersection\<close> only tests membership in
  the key list, so the place of a key has no influence on what follows.)
\<close>

type_synonym 'v js_object = "(string \<times> 'v) list"

fun assign :: "'v js_object \<Rightarrow> string \<Rightarrow> 'v \<Rightarrow> 'v js_object" where
  "assign [] k v = [(k, v)]"
| "assign ((k', v') # kvs) k v =
     (if k' = k then (k, v) # kvs else (k', v') # assign kvs k v)"

definition object_keys :: "'v js_object \<Rightarrow> string list" where
  "object_keys obj = map fst obj"

definition property :: "'v js_object \<Rightarrow> string \<Rightarrow> 'v option" where
  "property obj k = map_of obj k"

subsection \<open>processBlock\<close>

definition transferTopic :: string where
  "transferTopic = ''0xddf252ad1be2c89b69c2b068fc378daa952ba7f163c4a11628f55a4df523b3ef''"

definition watchedTopics :: "string list" where
  "watchedTopics = [transferTopic]"

text \<open>The test \<^verbatim>\<open>fromMatch || toMatch\<close> of \<^verbatim>\<open>checkForTransactions\<close>.\<close>

definition transactionAffectsUser :: "string \<Rightarrow> string \<Rightarrow> string \<Rightarrow> bool" where
  "transactionAffectsUser acct from_topic to_topic =
     (let fromMatch = endsWith (toLowerCase from_topic) (replace_0x acct);
          toMatch = endsWith (toLowerCase to_topic) (replace_0x acct)
      in fromMatch \<or> toMatch)"

text \<open>
  \<^verbatim>\<open>checkForTransactions\<close>, with the object \<^verbatim>\<open>contractsPendingSync\<close> it mutates passed
  in and returned. The value stored is what the registry returned, found or not.
\<close>

definition checkForTransactions ::
  "'c drizzle \<Rightarrow> web3 \<Rightarrow> string \<Rightarrow> 'c option js_object \<Rightarrow> log_entry
     \<Rightarrow> error + 'c option js_object" where
  "checkForTransactions drz w3 acct contractsPendingSync log =
     (let from_topic = index (topics log) 1;
          to_topic = index (topics log) 2
      in if falsy from_topic \<or> falsy to_topic then Inr contractsPendingSync
         else if transactionAffectsUser acct (or_empty from_topic) (or_empty to_topic) then
           (case findContractByAddress drz (toLowerCase (address log)) of
              Inl e \<Rightarrow> Inl e
            | Inr contract \<Rightarrow>
                (case toChecksumAddress w3 (address log) of
                   Inl e \<Rightarrow> Inl e
                 | Inr checksumAddress \<Rightarrow>
                     Inr (assign contractsPendingSync checksumAddress contract)))
         else Inr contractsPendingSync)"

text \<open>\<^verbatim>\<open>_.each(logs, checkForTransactions)\<close>; an exception ends the iteration.\<close>

fun each_log ::
  "'c drizzle \<Rightarrow> web3 \<Rightarrow> string \<Rightarrow> 'c option js_object \<Rightarrow> log_entry list
     \<Rightarrow> error + 'c option js_object" where
  "each_log drz w3 acct contractsPendingSync [] = Inr contractsPendingSync"
| "each_log drz w3 acct contractsPendingSync (log # logs) =
     (case checkForTransactions drz w3 acct contractsPendingSync log of
        Inl e \<Rightarrow> Inl e
      | Inr contractsPendingSync' \<Rightarrow> each_log drz w3 acct contractsPendingSync' logs)"

text \<open>One turn of the loop over \<^verbatim>\<open>block.transactions\<close>.\<close>

definition check_tx ::
  "'c drizzle \<Rightarrow> 'c option js_object \<Rightarrow> transaction \<Rightarrow> error + 'c option js_object" where
  "check_tx drz contractsPendingSync tx =
     (let from_addr = or_empty (tx_from tx) in
      case findContractByAddress drz (toLowerCase from_addr) of
        Inl e \<Rightarrow> Inl e
      | Inr fromContract \<Rightarrow>
          (let pending1 = (case fromContract of
                             Some c \<Rightarrow> assign contractsPendingSync from_addr (Some c)
                           | None \<Rightarrow> contractsPendingSync);
               to_addr = or_empty (tx_to tx)
           in case findContractByAddress drz (toLowerCase to_addr) of
                Inl e \<Rightarrow> Inl e
              | Inr toContract \<Rightarrow>
                  Inr (case toContract of
                         Some c \<Rightarrow> assign pending1 to_addr (Some c)
                       | None \<Rightarrow> pending1)))"

fun for_txs ::
  "'c drizzle \<Rightarrow> 'c option js_object \<Rightarrow> transaction list \<Rightarrow> error + 'c option js_object" where
  "for_txs drz contractsPendingSync [] = Inr contractsPendingSync"
| "for_txs drz contractsPendingSync (tx # txs) =
     (case check_tx drz contractsPendingSync tx of
        Inl e \<Rightarrow> Inl e
      | Inr contractsPendingSync' \<Rightarrow> for_txs drz contractsPendingSync' txs)"

text \<open>
  The object \<^verbatim>\<open>contractsPendingSync\<close> after the logs and the transactions of the block
  have been scanned (lines 171 to 223, without the log query itself).
\<close>

definition contractsPendingSync ::
  "'c drizzle \<Rightarrow> web3 \<Rightarrow> string \<Rightarrow> block \<Rightarrow> log_entry list \<Rightarrow> error + 'c option js_object" where
  "contractsPendingSync drz w3 acct blk logs =
     (case each_log drz w3 acct [] logs of
        Inl e \<Rightarrow> Inl e
      | Inr pending \<Rightarrow>
          (let txs = transactions blk in
           if length txs > 0 then for_txs drz pending txs else Inr pending))"

text \<open>
  \<^verbatim>\<open>buildBatchCallRequest\<close>, with the array \<^verbatim>\<open>request\<close> it pushes to passed in and
  returned; \<^verbatim>\<open>_.clone\<close> followed by the assignment to \<^verbatim>\<open>addresses\<close> is a record update.
\<close>

definition buildBatchCallRequest ::
  "string list \<Rightarrow> 'p subscription list \<Rightarrow> 'p subscription \<Rightarrow> 'p subscription list" where
  "buildBatchCallRequest contractAddressesPendingSync request subscription =
     (let matchedAddreses = intersection (addresses subscription) contractAddressesPendingSync;
          foundMatchedAddresses = length matchedAddreses
      in if foundMatchedAddresses \<noteq> 0
         then request @ [subscription\<lparr>addresses := matchedAddreses\<rparr>]
         else request)"

text \<open>\<^verbatim>\<open>_.each(subscriptions, buildBatchCallRequest)\<close> starting from the empty request.\<close>

definition build_request :: "string list \<Rightarrow> 'p subscription list \<Rightarrow> 'p subscription list" where
  "build_request contractAddressesPendingSync subs =
     foldl (buildBatchCallRequest contractAddressesPendingSync) [] subs"

definition processBlock ::
  "'c drizzle \<Rightarrow> web3 \<Rightarrow> 'p store \<Rightarrow> block \<Rightarrow> bool \<Rightarrow> ('c, 'p, unit) saga" where
  "processBlock drz w3 st blk syncAlways =
     (if falsy (account st) then done_with ()
      else
        let acct = or_empty (account st);
            subs = subscriptions st
        in try_catch
             (and_then (put (BLOCK_PROCESSING blk)) (\<lambda>_.
                if syncAlways then
                  all_effects
                    (map (\<lambda>key. put (CONTRACT_SYNCING (property (contracts drz) key)))
                         (object_keys (contracts drz)))
                else
                  and_then (await (GetPastLogs (number blk) (number blk) watchedTopics)
                                  (getPastLogs w3 (number blk) (number blk) watchedTopics)) (\<lambda>logs.
                  and_then (compute (contractsPendingSync drz w3 acct blk logs)) (\<lambda>pending.
                    let contractAddressesPendingSync = object_keys pending;
                        request = build_request contractAddressesPendingSync subs
                    in put (BATCH_CALL_REQUEST request)))))
             (\<lambda>error. put (BLOCK_FAILED error)))"

text \<open>
  \<^verbatim>\<open>processBlockHeader\<close>; the header is represented by its \<^verbatim>\<open>number\<close>, the one field
  the code reads.
\<close>

definition processBlockHeader ::
  "'c drizzle \<Rightarrow> web3 \<Rightarrow> 'p store \<Rightarrow> nat \<Rightarrow> bool \<Rightarrow> ('c, 'p, unit) saga" where
  "processBlockHeader drz w3 st blockNumber syncAlways =
     try_catch
       (and_then (await (GetBlock blockNumber) (getBlock w3 blockNumber)) (\<lambda>blk.
          processBlock drz w3 st blk syncAlways))
       (\<lambda>error. put (BLOCK_FAILED error))"

text \<open>
  What the registry and the provider answer to the calls that the scan of a log or of a
  transaction makes. A log is resolved when its topics pass the test of
  \<^verbatim>\<open>checkForTransactions\<close>: the registry is then asked for the lower-cased address
  of the log and \<^verbatim>\<open>toChecksumAddress\<close> for the address. For a transaction the registry
  is asked for the lower-cased sender and then for the lower-cased recipient.
\<close>

definition log_affects_user :: "string \<Rightarrow> log_entry \<Rightarrow> bool" where
  "log_affects_user acct log =
     (case (index (topics log) 1, index (topics log) 2) of
        (Some from_topic, Some to_topic) \<Rightarrow>
          from_topic \<noteq> [] \<and> to_topic \<noteq> [] \<and> transactionAffectsUser acct from_topic to_topic
      | _ \<Rightarrow> False)"

definition log_resolves :: "'c drizzle \<Rightarrow> web3 \<Rightarrow> log_entry \<Rightarrow> bool" where
  "log_resolves drz w3 log =
     (\<not> isl (findContractByAddress drz (toLowerCase (address log))) \<and>
      \<not> isl (toChecksumAddress w3 (address log)))"

definition log_resolution_fails :: "'c drizzle \<Rightarrow> web3 \<Rightarrow> log_entry \<Rightarrow> error \<Rightarrow> bool" where
  "log_resolution_fails drz w3 log e =
     (findContractByAddress drz (toLowerCase (address log)) = Inl e \<or>
      (\<not> isl (findContractByAddress drz (toLowerCase (address log))) \<and>
       toChecksumAddress w3 (address log) = Inl e))"

definition tx_resolves :: "'c drizzle \<Rightarrow> transaction \<Rightarrow> bool" where
  "tx_resolves drz tx =
     (\<not> isl (findContractByAddress drz (toLowerCase (or_empty (tx_from tx)))) \<and>
      \<not> isl (findContractByAddress drz (toLowerCase (or_empty (tx_to tx)))))"

definition tx_resolution_fails :: "'c drizzle \<Rightarrow> transaction \<Rightarrow> error \<Rightarrow> bool" where
  "tx_resolution_fails drz tx e =
     (findContractByAddress drz (toLowerCase (or_empty (tx_from tx))) = Inl e \<or>
      (\<not> isl (findContractByAddress drz (toLowerCase (or_empty (tx_from tx)))) \<and>
       findContractByAddress drz (toLowerCase (or_empty (tx_to tx))) = Inl e))"

subsection \<open>updateAccountEth\<close>

text \<open>The action may come without \<^verbatim>\<open>web3\<close>, hence the \<open>option\<close>.\<close>

definition updateAccountEth :: "web3 option \<Rightarrow> 'p store \<Rightarrow> ('c, 'p, unit) saga" where
  "updateAccountEth w3 st =
     and_then (put ACCOUNT_BALANCES_FETCHING) (\<lambda>_.
       if falsy (account st) \<or> w3 = None then done_with ()
       else
         (case w3 of
            None \<Rightarrow> done_with ()
          | Some w \<Rightarrow>
              and_then (await (GetBalance (or_empty (account st)))
                              (getBalance w (or_empty (account st)))) (\<lambda>ethBalance.
                put (ETH_BALANCE_UPDATED ethBalance))))"

subsection \<open>blocksSaga\<close>

datatype watcher = TakeLatest | TakeEvery

datatype worker =
    CallCreateBlockChannel
  | UpdateAccountEth
  | ProcessBlockHeader
  | ProcessBlock
  | CallCreateBlockPollChannel

text \<open>The registrations of \<^verbatim>\<open>blocksSaga\<close>, in the order of the source.\<close>

definition blocksSaga :: "(watcher \<times> string \<times> worker) list" where
  "blocksSaga =
     [(TakeLatest, ''BLOCKS_LISTENING'', CallCreateBlockChannel),
      (TakeEvery, ''APP_READY'', UpdateAccountEth),
      (TakeEvery, ''BLOCK_RECEIVED'', ProcessBlockHeader),
      (TakeEvery, ''BLOCK_RECEIVED'', UpdateAccountEth),
      (TakeLatest, ''BLOCKS_POLLING'', CallCreateBlockPollChannel),
      (TakeEvery, ''BLOCK_FOUND'', ProcessBlock)]"

text \<open>The workers started when an action of the given type is dispatched.\<close>

definition triggered :: "string \<Rightarrow> worker list" where
  "triggered action_type =
     map (\<lambda>(h, pat, w). w) (filter (\<lambda>(h, pat, w). pat = action_type) blocksSaga)"

text \<open>
  \<^verbatim>\<open>takeEvery\<close> forks one task for every matching action and \<^verbatim>\<open>takeLatest\<close> cancels
  the task before; how redux-saga schedules the forked tasks is not part of the model.
  What the model keeps of it: an error that escapes a saga is its outcome \<open>Inl\<close>, and
  only such an error can reach the watcher that forked the saga.
\<close>

subsection \<open>Event channels\<close>

text \<open>
  \<^verbatim>\<open>eventChannel(subscribe)\<close> of redux-saga, called with no buffer as in the source: a
  message that is emitted while the consumer waits in \<^verbatim>\<open>take\<close> is handed to it, and a
  message that is emitted while nobody waits is dropped. \<^verbatim>\<open>emit(END)\<close> closes the
  channel, which calls the \<^verbatim>\<open>unsubscribe\<close> function the subscriber returned and ends
  the waiting \<^verbatim>\<open>take\<close>; a closed channel ignores what is emitted, a \<^verbatim>\<open>take\<close> on it
  ends at once, and a second close does nothing.

  \<open>taker\<close> says that the consumer waits in \<^verbatim>\<open>take\<close>, \<open>emitted\<close> lists the messages
  handed to the consumer, \<open>resource\<close> is the state of what the subscriber set up.
  (Neither \<^verbatim>\<open>unsubscribe\<close> of the source throws; were one to throw, the model still
  takes the channel as closed.)
\<close>

datatype 'a channel_input = END | Message 'a

record ('a, 'r) channel =
  closed :: bool
  taker :: bool
  emitted :: "'a list"
  resource :: 'r

definition channel_close ::
  "('r \<Rightarrow> (error + unit) \<times> 'r) \<Rightarrow> ('a, 'r) channel \<Rightarrow> (error + unit) \<times> ('a, 'r) channel" where
  "channel_close unsubscribe ch =
     (if closed ch then (Inr (), ch)
      else (case unsubscribe (resource ch) of
              (r, res) \<Rightarrow> (r, ch\<lparr>closed := True, taker := False, resource := res\<rparr>)))"

definition emit ::
  "('r \<Rightarrow> (error + unit) \<times> 'r) \<Rightarrow> 'a channel_input \<Rightarrow> ('a, 'r) channel
     \<Rightarrow> (error + unit) \<times> ('a, 'r) channel" where
  "emit unsubscribe input ch =
     (case input of
        END \<Rightarrow> channel_close unsubscribe ch
      | Message a \<Rightarrow>
          (Inr (),
           if closed ch then ch
           else if taker ch then ch\<lparr>taker := False, emitted := emitted ch @ [a]\<rparr>
           else ch))"


text \<open>Two statements of a handler in sequence: an exception in the first skips the second.\<close>

definition then_do ::
  "(error + unit) \<times> 's \<Rightarrow> ('s \<Rightarrow> (error + unit) \<times> 's) \<Rightarrow> (error + unit) \<times> 's" where
  "then_do r f = (case r of (Inl e, s) \<Rightarrow> (Inl e, s) | (Inr _, s) \<Rightarrow> f s)"

subsubsection \<open>createBlockChannel\<close>




text \<open>The channel as \<^verbatim>\<open>eventChannel\<close> returns it: open, and nobody waits yet.\<close>

definition new_channel :: "'r \<Rightarrow> ('a, 'r) channel" where
  "new_channel res = \<lparr>closed = False, taker = False, emitted = [], resource = res\<rparr>"





subsubsection \<open>createBlockPollChannel\<close>

text \<open>
  The block tracker is a parameter: \<open>stop\<close> gives the outcome of the promise that
  \<^verbatim>\<open>blockTracker.stop()\<close> returns (\<open>Inl\<close> when it rejects) and the tracker afterwards.
  \<^verbatim>\<open>promise.catch(handler)\<close> is \<open>promise_catch\<close>; the handler of the source does nothing.
\<close>

definition promise_catch :: "error + 'a \<Rightarrow> (error \<Rightarrow> error + 'a) \<Rightarrow> error + 'a" where
  "promise_catch promise handler =
     (case promise of Inl e \<Rightarrow> handler e | Inr v \<Rightarrow> Inr v)"

definition poll_unsubscribe ::
  "('t \<Rightarrow> (error + unit) \<times> 't) \<Rightarrow> 't \<Rightarrow> (error + unit) \<times> 't" where
  "poll_unsubscribe stop blockTracker =
     (case stop blockTracker of
        (promise, blockTracker') \<Rightarrow> (promise_catch promise (\<lambda>_. Inr ()), blockTracker'))"

datatype tracker_event =
    On_block block
  | Start_rejected error

definition createBlockPollChannel_handler ::
  "('t \<Rightarrow> (error + unit) \<times> 't) \<Rightarrow> bool \<Rightarrow> tracker_event \<Rightarrow> (('c, 'p) action, 't) channel
     \<Rightarrow> (error + unit) \<times> (('c, 'p) action, 't) channel" where
  "createBlockPollChannel_handler stop syncAlways ev ch =
     (case ev of
        On_block blk \<Rightarrow> emit (poll_unsubscribe stop) (Message (BLOCK_FOUND blk syncAlways)) ch
      | Start_rejected e \<Rightarrow>
          then_do (emit (poll_unsubscribe stop) (Message (BLOCKS_FAILED e)) ch)
                  (emit (poll_unsubscribe stop) END))"

text \<open>\<^verbatim>\<open>blockChannel.close()\<close> on the channel of \<^verbatim>\<open>createBlockPollChannel\<close>.\<close>

definition poll_channel_close ::
  "('t \<Rightarrow> (error + unit) \<times> 't) \<Rightarrow> ('a, 't) channel \<Rightarrow> (error + unit) \<times> ('a, 't) channel" where
  "poll_channel_close stop ch = channel_close (poll_unsubscribe stop) ch"

subsection \<open>Example data\<close>

text \<open>
  Addresses from the test vectors of EIP-55, in lower case and in checksummed spelling,
  and a provider and a registry over them.
\<close>

definition account_lower :: string where
  "account_lower = ''0x5aaeb6053f3e94c9b9a09f33669435e7ef1beaed''"

definition account_checksummed :: string where
  "account_checksummed = ''0x5aAeb6053F3E94C9b9A09f33669435E7Ef1BeAed''"

definition vault_lower :: string where
  "vault_lower = ''0xfb6916095ca1df60bb79ce92ce3ea74c37c5d359''"

definition vault_checksummed :: string where
  "vault_checksummed = ''0xfB6916095ca1df60bB79Ce92cE3Ea74c37c5d359''"

definition token_lower :: string where
  "token_lower = ''0xdbf03b407c01e7cd3cbea99509d93f8dddc8c6fb''"

definition token_checksummed :: string where
  "token_checksummed = ''0xdbF03B407c01E7cD3CBea99509d93f8DDDC8C6FB''"

definition stranger_topic :: string where
  "stranger_topic = ''0x000000000000000000000000d1220a0cf47c7b9be7a2e6ba89f429762e7b9adb''"

text \<open>The account, padded to 32 bytes as a topic.\<close>

definition account_topic :: string where
  "account_topic = ''0x0000000000000000000000005aaeb6053f3e94c9b9a09f33669435e7ef1beaed''"

definition transfer_log :: log_entry where
  "transfer_log =
     \<lparr>topics = [transferTopic, account_topic, stranger_topic], address = vault_checksummed\<rparr>"

definition example_drizzle :: "nat drizzle" where
  "example_drizzle =
     \<lparr>contracts = [(''vault'', 1), (''token'', 2)],
      findContractByAddress =
        (\<lambda>a. Inr (if a = vault_lower then Some 1
                   else if a = token_lower then Some 2 else None))\<rparr>"

definition example_checksum :: "string \<Rightarrow> error + string" where
  "example_checksum a =
     (if toLowerCase a = vault_lower then Inr vault_checksummed
      else if toLowerCase a = token_lower then Inr token_checksummed
      else if toLowerCase a = account_lower then Inr account_checksummed
      else Inl (Error ''invalid address''))"

definition example_web3 :: web3 where
  "example_web3 =
     \<lparr>getBlock = (\<lambda>n. Inr \<lparr>number = n, transactions = []\<rparr>),
      getPastLogs = (\<lambda>fromBlock toBlock tps. Inr [transfer_log]),
      getBalance = (\<lambda>a. Inr 42),
      toChecksumAddress = example_checksum\<rparr>"

definition failing_web3 :: web3 where
  "failing_web3 = example_web3\<lparr>getPastLogs := (\<lambda>fromBlock toBlock tps. Inl (Error ''timeout''))\<rparr>"

definition strict_web3 :: web3 where
  "strict_web3 = example_web3\<lparr>toChecksumAddress := (\<lambda>a. Inl (Error ''invalid address''))\<rparr>"

definition broken_drizzle :: "nat drizzle" where
  "broken_drizzle =
     example_drizzle
       \<lparr>findContractByAddress :=
          (\<lambda>a. if a = token_lower then Inl (Error ''registry unavailable'')
               else findContractByAddress example_drizzle a)\<rparr>"

definition quiet_web3 :: web3 where
  "quiet_web3 = example_web3\<lparr>getPastLogs := (\<lambda>fromBlock toBlock tps. Inr [])\<rparr>"

definition rejecting_stop :: "nat \<Rightarrow> (error + unit) \<times> nat" where
  "rejecting_stop calls = (Inl (Error ''no outstanding subscription''), Suc calls)"

definition example_block :: block where
  "example_block = \<lparr>number = 7, transactions = []\<rparr>"

definition token_block :: block where
  "token_block =
     \<lparr>number = 8, transactions = [\<lparr>tx_from = Some account_lower, tx_to = Some token_checksummed\<rparr>]\<rparr>"

definition example_store :: "string store" where
  "example_store =
     \<lparr>account = Some account_lower,
      subscriptions =
        [\<lparr>addresses = [token_checksummed, vault_checksummed], params = ''balanceOf''\<rparr>,
         \<lparr>addresses = [token_checksummed], params = ''totalSupply''\<rparr>,
         \<lparr>addresses = [vault_checksummed], params = ''getPricePerFullShare''\<rparr>]\<rparr>"

definition lower_case_store :: "string store" where
  "lower_case_store =
     \<lparr>account = Some account_lower,
      subscriptions = [\<lparr>addresses = [vault_lower], params = ''balanceOf''\<rparr>]\<rparr>"

definition checksummed_account_store :: "string store" where
  "checksummed_account_store = example_store\<lparr>account := Some account_checksummed\<rparr>"

definition no_account_store :: "string store" where
  "no_account_store = example_store\<lparr>account := None\<rparr>"

section \<open>Properties\<close>

subsection \<open>Auxiliary facts\<close>

lemma set_intersection_acc:
  "set (foldl (\<lambda>result v. if v \<notin> set result \<and> v \<in> set other
                         then result @ [v] else result) acc array)
   = set acc \<union> (set array \<inter> set other)"
  by (induction array arbitrary: acc) auto

lemma set_intersection: "set (intersection array other) = set array \<inter> set other"
  by (simp add: intersection_def set_intersection_acc)

lemma distinct_intersection_acc:
  "distinct acc \<Longrightarrow> distinct (foldl (\<lambda>result v. if v \<notin> set result \<and> v \<in> set other
                         then result @ [v] else result) acc array)"
  by (induction array arbitrary: acc) auto

lemma distinct_intersection: "distinct (intersection array other)"
  by (simp add: intersection_def distinct_intersection_acc)

lemma intersection_empty_iff: "intersection array other = [] \<longleftrightarrow> set array \<inter> set other = {}"
  using set_intersection[of array other] by (metis set_empty)

lemma build_request_acc:
  "foldl (buildBatchCallRequest keys) request subs =
     request @ map (\<lambda>s. s\<lparr>addresses := intersection (addresses s) keys\<rparr>)
                   (filter (\<lambda>s. intersection (addresses s) keys \<noteq> []) subs)"
  by (induction subs arbitrary: request) (simp_all add: buildBatchCallRequest_def Let_def)

lemma build_request_eq:
  "build_request keys subs =
     map (\<lambda>s. s\<lparr>addresses := intersection (addresses s) keys\<rparr>)
         (filter (\<lambda>s. set (addresses s) \<inter> set keys \<noteq> {}) subs)"
  by (simp add: build_request_def build_request_acc intersection_empty_iff)

lemma processBlock_selective:
  assumes "\<not> falsy (account st)"
  shows "processBlock drz w3 st blk False =
     (case getPastLogs w3 (number blk) (number blk) watchedTopics of
        Inl e \<Rightarrow> ([Put (BLOCK_PROCESSING blk),
                   Await (GetPastLogs (number blk) (number blk) watchedTopics),
                   Put (BLOCK_FAILED e)], Inr ())
      | Inr logs \<Rightarrow>
         (case contractsPendingSync drz w3 (or_empty (account st)) blk logs of
            Inl e \<Rightarrow> ([Put (BLOCK_PROCESSING blk),
                   Await (GetPastLogs (number blk) (number blk) watchedTopics),
                   Put (BLOCK_FAILED e)], Inr ())
          | Inr pending \<Rightarrow> ([Put (BLOCK_PROCESSING blk),
                   Await (GetPastLogs (number blk) (number blk) watchedTopics),
                   Put (BATCH_CALL_REQUEST (build_request (object_keys pending) (subscriptions st)))],
                   Inr ())))"
  using assms
  by (simp add: processBlock_def try_catch_def and_then_def put_def await_def compute_def Let_def
           split: sum.splits)

lemma all_effects_puts:
  "all_effects (map (\<lambda>x. put (f x)) xs) = (map (\<lambda>x. Put (f x)) xs, Inr ())"
  by (induction xs) (simp_all add: done_with_def and_then_def put_def)

lemma property_keys:
  "distinct (map fst obj) \<Longrightarrow> map (property obj) (object_keys obj) = map (\<lambda>(k, v). Some v) obj"
  unfolding property_def object_keys_def
proof (induction obj)
  case Nil
  then show ?case by simp
next
  case (Cons kv obj)
  obtain k v where kv: "kv = (k, v)" by (cases kv)
  from Cons.prems kv have notin: "k \<notin> fst ` set obj" and d: "distinct (map fst obj)" by auto
  have "map (map_of (kv # obj)) (map fst obj) = map (map_of obj) (map fst obj)"
    using notin kv by (auto simp: map_eq_conv)
  with Cons.IH[OF d] kv show ?case by simp
qed

lemma processBlock_syncAlways:
  assumes "\<not> falsy (account st)" "distinct (map fst (contracts drz))"
  shows "processBlock drz w3 st blk True =
     (Put (BLOCK_PROCESSING blk) # map (\<lambda>(k, c). Put (CONTRACT_SYNCING (Some c))) (contracts drz), Inr ())"
proof -
  have "map (\<lambda>key. Put (CONTRACT_SYNCING (property (contracts drz) key))) (object_keys (contracts drz))
        = map (\<lambda>v. Put (CONTRACT_SYNCING v)) (map (property (contracts drz)) (object_keys (contracts drz)))"
    by (simp add: comp_def)
  also have "\<dots> = map (\<lambda>(k, c). Put (CONTRACT_SYNCING (Some c))) (contracts drz)"
    by (simp add: property_keys[OF assms(2)] comp_def case_prod_unfold)
  finally have eq: "map (\<lambda>key. Put (CONTRACT_SYNCING (property (contracts drz) key))) (object_keys (contracts drz))
     = map (\<lambda>(k, c). Put (CONTRACT_SYNCING (Some c))) (contracts drz)" .
  show ?thesis
    using assms(1)
    by (simp add: processBlock_def try_catch_def and_then_def put_def Let_def
          all_effects_puts[of "\<lambda>key. CONTRACT_SYNCING (property (contracts drz) key)", unfolded put_def] eq)
qed

lemma processBlock_returns: "snd (processBlock drz w3 st blk sa) = Inr ()"
  by (simp add: processBlock_def try_catch_def and_then_def put_def await_def compute_def Let_def done_with_def
       all_effects_puts[unfolded put_def]
           split: sum.splits prod.splits)

lemma processBlockHeader_returns: "snd (processBlockHeader drz w3 st blockNumber sa) = Inr ()"
proof (cases "getBlock w3 blockNumber")
  case (Inl e)
  then show ?thesis
    by (simp add: processBlockHeader_def try_catch_def and_then_def await_def put_def)
next
  case (Inr blk)
  obtain t where "processBlock drz w3 st blk sa = (t, Inr ())"
    using processBlock_returns [of drz w3 st blk sa]
    by (cases "processBlock drz w3 st blk sa") auto
  with Inr show ?thesis
    by (simp add: processBlockHeader_def try_catch_def and_then_def await_def)
qed

lemma processBlockHeader_getBlock_fails:
  "getBlock w3 blockNumber = Inl e \<Longrightarrow>
   processBlockHeader drz w3 st blockNumber sa =
     ([Await (GetBlock blockNumber), Put (BLOCK_FAILED e)], Inr ())"
  by (simp add: processBlockHeader_def try_catch_def and_then_def await_def put_def)

lemma toLowerCase_char_idem: "toLowerCase_char (toLowerCase_char c) = toLowerCase_char c"
  by (simp add: toLowerCase_char_def)

lemma endsWith_set: "endsWith s target \<Longrightarrow> set target \<subseteq> set s"
  unfolding endsWith_def by (metis set_drop_subset)

lemma endsWith_suffix: "endsWith s target \<longleftrightarrow> suffix target s"
  unfolding endsWith_def
  by (metis append_eq_conv_conj suffix_def suffix_drop suffix_length_le length_append add_diff_cancel_right')

lemma mixed_case_account_matches_no_topic:
  assumes "c \<in> set (replace_0x acct)" and "toLowerCase_char c \<noteq> c"
  shows "\<not> transactionAffectsUser acct from_topic to_topic"
proof
  assume "transactionAffectsUser acct from_topic to_topic"
  then obtain topic where "endsWith (toLowerCase topic) (replace_0x acct)"
    by (auto simp: transactionAffectsUser_def)
  then have "c \<in> set (toLowerCase topic)"
    using assms(1) endsWith_set by blast
  then obtain d where "c = toLowerCase_char d"
    by (auto simp: toLowerCase_def)
  then have "toLowerCase_char c = c"
    by (simp add: toLowerCase_char_idem)
  with assms(2) show False by simp
qed

lemma keys_assign:
  "object_keys (assign obj k v) =
     (if k \<in> set (object_keys obj) then object_keys obj else object_keys obj @ [k])"
  by (induction obj) (force simp: object_keys_def)+

lemma set_keys_assign: "set (object_keys (assign obj k v)) = insert k (set (object_keys obj))"
  by (auto simp: keys_assign)

lemma each_log_append:
  "each_log drz w3 acct pending (logs @ logs') =
     (case each_log drz w3 acct pending logs of
        Inl e \<Rightarrow> Inl e
      | Inr pending' \<Rightarrow> each_log drz w3 acct pending' logs')"
  by (induction logs arbitrary: pending) (simp_all split: sum.splits)

lemma for_txs_append:
  "for_txs drz pending (txs @ txs') =
     (case for_txs drz pending txs of
        Inl e \<Rightarrow> Inl e
      | Inr pending' \<Rightarrow> for_txs drz pending' txs')"
  by (induction txs arbitrary: pending) (simp_all split: sum.splits)

lemma checkForTransactions_skips:
  "\<not> log_affects_user acct log \<Longrightarrow> checkForTransactions drz w3 acct pending log = Inr pending"
  by (auto simp: checkForTransactions_def log_affects_user_def falsy_def or_empty_def Let_def
           split: option.splits)

lemma checkForTransactions_resolves:
  "log_resolves drz w3 log \<Longrightarrow> \<exists>pending'. checkForTransactions drz w3 acct pending log = Inr pending'"
  by (auto simp: checkForTransactions_def log_resolves_def Let_def split: sum.splits)

lemma checkForTransactions_fails:
  "log_affects_user acct log \<Longrightarrow> log_resolution_fails drz w3 log e \<Longrightarrow>
   checkForTransactions drz w3 acct pending log = Inl e"
  by (auto simp: checkForTransactions_def log_affects_user_def log_resolution_fails_def
                 falsy_def or_empty_def Let_def
           split: option.splits sum.splits)

lemma each_log_resolves:
  "list_all (\<lambda>l. log_affects_user acct l \<longrightarrow> log_resolves drz w3 l) logs \<Longrightarrow>
   \<exists>pending'. each_log drz w3 acct pending logs = Inr pending'"
proof (induction logs arbitrary: pending)
  case Nil
  then show ?case by simp
next
  case (Cons log logs)
  have "\<exists>p. checkForTransactions drz w3 acct pending log = Inr p"
  proof (cases "log_affects_user acct log")
    case True
    with Cons.prems have "log_resolves drz w3 log" by simp
    then show ?thesis by (rule checkForTransactions_resolves)
  next
    case False
    then show ?thesis by (simp add: checkForTransactions_skips)
  qed
  then obtain p where "checkForTransactions drz w3 acct pending log = Inr p" ..
  moreover from Cons.prems have "list_all (\<lambda>l. log_affects_user acct l \<longrightarrow> log_resolves drz w3 l) logs"
    by simp
  ultimately show ?case using Cons.IH [of p] by simp
qed

lemma each_log_fails:
  assumes "list_all (\<lambda>l. log_affects_user acct l \<longrightarrow> log_resolves drz w3 l) before"
    and "log_affects_user acct log"
    and "log_resolution_fails drz w3 log e"
  shows "each_log drz w3 acct pending (before @ log # after) = Inl e"
proof -
  obtain p where "each_log drz w3 acct pending before = Inr p"
    using each_log_resolves [OF assms(1)] by blast
  then show ?thesis
    by (simp add: each_log_append checkForTransactions_fails [OF assms(2,3)])
qed

lemma check_tx_resolves:
  "tx_resolves drz tx \<Longrightarrow> \<exists>pending'. check_tx drz pending tx = Inr pending'"
  by (auto simp: check_tx_def tx_resolves_def Let_def split: sum.splits)

lemma check_tx_fails:
  "tx_resolution_fails drz tx e \<Longrightarrow> check_tx drz pending tx = Inl e"
  by (auto simp: check_tx_def tx_resolution_fails_def Let_def split: sum.splits)

lemma for_txs_resolves:
  "list_all (tx_resolves drz) txs \<Longrightarrow> \<exists>pending'. for_txs drz pending txs = Inr pending'"
proof (induction txs arbitrary: pending)
  case Nil
  then show ?case by simp
next
  case (Cons tx txs)
  then obtain p where "check_tx drz pending tx = Inr p"
    using check_tx_resolves [of drz tx pending] by auto
  with Cons show ?case by simp
qed

lemma for_txs_fails:
  assumes "list_all (tx_resolves drz) before" and "tx_resolution_fails drz tx e"
  shows "for_txs drz pending (before @ tx # after) = Inl e"
proof -
  obtain p where "for_txs drz pending before = Inr p"
    using for_txs_resolves [OF assms(1)] by blast
  then show ?thesis
    by (simp add: for_txs_append check_tx_fails [OF assms(2)])
qed

lemma checkForTransactions_keys:
  "checkForTransactions drz w3 acct pending log = Inr pending' \<Longrightarrow>
   set (object_keys pending') \<subseteq>
     set (object_keys pending) \<union> {k. toChecksumAddress w3 (address log) = Inr k}"
  by (auto simp: checkForTransactions_def Let_def set_keys_assign split: if_splits sum.splits)

lemma each_log_keys:
  "each_log drz w3 acct pending logs = Inr pending' \<Longrightarrow>
   set (object_keys pending') \<subseteq>
     set (object_keys pending) \<union>
     {k. \<exists>log \<in> set logs. toChecksumAddress w3 (address log) = Inr k}"
proof (induction logs arbitrary: pending)
  case Nil
  then show ?case by simp
next
  case (Cons log logs)
  from Cons.prems obtain p where
    first: "checkForTransactions drz w3 acct pending log = Inr p" and
    rest: "each_log drz w3 acct p logs = Inr pending'"
    by (auto split: sum.splits)
  from checkForTransactions_keys [OF first] Cons.IH [OF rest] show ?case
    by auto
qed


lemma triggered_UpdateAccountEth:
  "UpdateAccountEth \<in> set (triggered t) \<longleftrightarrow> t = ''APP_READY'' \<or> t = ''BLOCK_RECEIVED''"
  by (auto simp: triggered_def blocksSaga_def)

lemma updateAccountEth_fetch_fails:
  "\<not> falsy (account st) \<Longrightarrow> getBalance w (or_empty (account st)) = Inl e \<Longrightarrow>
   updateAccountEth (Some w) st =
     ([Put ACCOUNT_BALANCES_FETCHING, Await (GetBalance (or_empty (account st)))], Inl e)"
  by (simp add: updateAccountEth_def and_then_def put_def await_def)








subsection \<open>No account\<close>

text \<open>
  C5. If no account is set (the selector gives nothing, or the empty string), processBlock
  returns at once: it yields no effect at all, so not even BLOCK_PROCESSING is dispatched,
  and it returns normally.
\<close>

theorem processBlock_no_account:
  "falsy (account st) \<Longrightarrow> processBlock drz w3 st blk syncAlways = ([], Inr ())"
  by (simp add: processBlock_def done_with_def)

theorem processBlock_no_account_witness:
  "falsy (account no_account_store) \<and>
   processBlock example_drizzle example_web3 no_account_store example_block False = ([], Inr ())"
proof -
  have h: "falsy (account no_account_store)"
    by (simp add: no_account_store_def falsy_def)
  show ?thesis
    using h processBlock_no_account [OF h, of example_drizzle example_web3 example_block False]
    by simp
qed

subsection \<open>The batch request\<close>

text \<open>
  C1. With an account set and syncAlways false, when the log query and the scan of the
  block succeed, processBlock dispatches BLOCK_PROCESSING, queries the logs, and dispatches
  BATCH_CALL_REQUEST whose request holds, in the order of the subscriptions, exactly the
  subscriptions whose addresses meet the keys of contractsPendingSync; each appears as a
  copy with only its addresses replaced by the intersection, which has the elements common
  to the subscription's addresses and the keys, each once.
\<close>

theorem batch_call_request_is_intersection:
  assumes "\<not> falsy (account st)"
    and "getPastLogs w3 (number blk) (number blk) watchedTopics = Inr logs"
    and "contractsPendingSync drz w3 (or_empty (account st)) blk logs = Inr pending"
  shows "processBlock drz w3 st blk False =
           ([Put (BLOCK_PROCESSING blk),
             Await (GetPastLogs (number blk) (number blk) watchedTopics),
             Put (BATCH_CALL_REQUEST
                    (map (\<lambda>s. s\<lparr>addresses := intersection (addresses s) (object_keys pending)\<rparr>)
                         (filter (\<lambda>s. set (addresses s) \<inter> set (object_keys pending) \<noteq> {})
                                 (subscriptions st))))],
            Inr ())
         \<and> set (intersection xs (object_keys pending)) = set xs \<inter> set (object_keys pending)
         \<and> distinct (intersection xs (object_keys pending))"
  using assms
  by (simp add: processBlock_selective build_request_eq set_intersection distinct_intersection)

theorem batch_call_request_is_intersection_witness:
  "\<not> falsy (account example_store) \<and>
   getPastLogs example_web3 (number token_block) (number token_block) watchedTopics = Inr [transfer_log] \<and>
   contractsPendingSync example_drizzle example_web3 (or_empty (account example_store)) token_block
       [transfer_log] = Inr [(vault_checksummed, Some 1), (token_checksummed, Some 2)] \<and>
   processBlock example_drizzle example_web3 example_store token_block False =
     ([Put (BLOCK_PROCESSING token_block),
       Await (GetPastLogs 8 8 watchedTopics),
       Put (BATCH_CALL_REQUEST
              [\<lparr>addresses = [token_checksummed, vault_checksummed], params = ''balanceOf''\<rparr>,
               \<lparr>addresses = [token_checksummed], params = ''totalSupply''\<rparr>,
               \<lparr>addresses = [vault_checksummed], params = ''getPricePerFullShare''\<rparr>])],
      Inr ())"
proof -
  have h1: "\<not> falsy (account example_store)"
    by code_simp
  have h2: "getPastLogs example_web3 (number token_block) (number token_block) watchedTopics
              = Inr [transfer_log]"
    by code_simp
  have h3: "contractsPendingSync example_drizzle example_web3 (or_empty (account example_store))
              token_block [transfer_log]
              = Inr [(vault_checksummed, Some 1), (token_checksummed, Some 2)]"
    by code_simp
  have n: "number token_block = 8"
    by code_simp
  have r: "map (\<lambda>s. s\<lparr>addresses := intersection (addresses s)
                         (object_keys [(vault_checksummed, Some (1::nat)), (token_checksummed, Some 2)])\<rparr>)
             (filter (\<lambda>s. set (addresses s) \<inter>
                          set (object_keys [(vault_checksummed, Some (1::nat)), (token_checksummed, Some 2)]) \<noteq> {})
                     (subscriptions example_store))
           = [\<lparr>addresses = [token_checksummed, vault_checksummed], params = ''balanceOf''\<rparr>,
               \<lparr>addresses = [token_checksummed], params = ''totalSupply''\<rparr>,
               \<lparr>addresses = [vault_checksummed], params = ''getPricePerFullShare''\<rparr>]"
    by code_simp
  from batch_call_request_is_intersection [OF h1 h2 h3, of "[]"]
  have "processBlock example_drizzle example_web3 example_store token_block False =
     ([Put (BLOCK_PROCESSING token_block),
       Await (GetPastLogs 8 8 watchedTopics),
       Put (BATCH_CALL_REQUEST
              [\<lparr>addresses = [token_checksummed, vault_checksummed], params = ''balanceOf''\<rparr>,
               \<lparr>addresses = [token_checksummed], params = ''totalSupply''\<rparr>,
               \<lparr>addresses = [vault_checksummed], params = ''getPricePerFullShare''\<rparr>])],
      Inr ())"
    unfolding r n by (rule conjunct1)
  with h1 h2 h3 show ?thesis by blast
qed

text \<open>
  C10. With an account set and syncAlways false, when no error occurs and no subscription
  has an address among the keys of contractsPendingSync, BATCH_CALL_REQUEST is still
  dispatched, with the empty request.
\<close>

theorem empty_request_is_emitted:
  assumes "\<not> falsy (account st)"
    and "getPastLogs w3 (number blk) (number blk) watchedTopics = Inr logs"
    and "contractsPendingSync drz w3 (or_empty (account st)) blk logs = Inr pending"
    and "\<forall>s \<in> set (subscriptions st). set (addresses s) \<inter> set (object_keys pending) = {}"
  shows "processBlock drz w3 st blk False =
           ([Put (BLOCK_PROCESSING blk),
             Await (GetPastLogs (number blk) (number blk) watchedTopics),
             Put (BATCH_CALL_REQUEST [])],
            Inr ())"
proof -
  have "filter (\<lambda>s. set (addresses s) \<inter> set (object_keys pending) \<noteq> {}) (subscriptions st) = []"
    using assms(4) by (simp add: filter_empty_conv)
  then show ?thesis
    using assms(1-3) by (simp add: processBlock_selective build_request_eq)
qed

theorem empty_request_is_emitted_witness:
  "\<not> falsy (account example_store) \<and>
   getPastLogs quiet_web3 (number example_block) (number example_block) watchedTopics = Inr [] \<and>
   contractsPendingSync example_drizzle quiet_web3 (or_empty (account example_store)) example_block []
      = Inr [] \<and>
   list_all (\<lambda>s. set (addresses s) \<inter> set (object_keys []) = {}) (subscriptions example_store) \<and>
   processBlock example_drizzle quiet_web3 example_store example_block False =
     ([Put (BLOCK_PROCESSING example_block),
       Await (GetPastLogs (number example_block) (number example_block) watchedTopics),
       Put (BATCH_CALL_REQUEST [])],
      Inr ())"
proof -
  have h1: "\<not> falsy (account example_store)"
    by code_simp
  have h2: "getPastLogs quiet_web3 (number example_block) (number example_block) watchedTopics = Inr []"
    by code_simp
  have h3: "contractsPendingSync example_drizzle quiet_web3 (or_empty (account example_store))
              example_block [] = Inr []"
    by code_simp
  have h4: "\<forall>s \<in> set (subscriptions example_store). set (addresses s) \<inter> set (object_keys []) = {}"
    by (simp add: object_keys_def)
  have h4': "list_all (\<lambda>s. set (addresses s) \<inter> set (object_keys []) = {})
               (subscriptions example_store)"
    by (simp add: object_keys_def list_all_iff)
  from empty_request_is_emitted [OF h1 h2 h3 h4] h1 h2 h3 h4' show ?thesis
    by blast
qed

subsection \<open>syncAlways\<close>

text \<open>
  C4. With an account set and syncAlways true, processBlock dispatches BLOCK_PROCESSING and
  then one CONTRACT_SYNCING for each property of drizzle.contracts, in the order of
  Object.keys, and returns: the trace holds no provider call and no BATCH_CALL_REQUEST,
  whatever the block and the provider are. (The keys of an object are distinct.)
\<close>

theorem syncAlways_syncs_every_contract:
  assumes "\<not> falsy (account st)"
    and "distinct (map fst (contracts drz))"
  shows "processBlock drz w3 st blk True =
           (Put (BLOCK_PROCESSING blk) #
            map (\<lambda>(key, contract). Put (CONTRACT_SYNCING (Some contract))) (contracts drz),
            Inr ())"
  using assms by (rule processBlock_syncAlways)

theorem syncAlways_syncs_every_contract_witness:
  "\<not> falsy (account example_store) \<and>
   distinct (map fst (contracts example_drizzle)) \<and>
   processBlock example_drizzle failing_web3 example_store token_block True =
     ([Put (BLOCK_PROCESSING token_block),
       Put (CONTRACT_SYNCING (Some 1)),
       Put (CONTRACT_SYNCING (Some 2))],
      Inr ())"
proof -
  have h1: "\<not> falsy (account example_store)"
    by code_simp
  have h2: "distinct (map fst (contracts example_drizzle))"
    by code_simp
  have c: "contracts example_drizzle = [(''vault'', 1), (''token'', 2)]"
    by (simp add: example_drizzle_def)
  from syncAlways_syncs_every_contract [OF h1 h2, of failing_web3 token_block] h1 h2
  show ?thesis
    by (simp add: c)
qed

subsection \<open>Errors while processing a block\<close>

text \<open>
  C6. With an account set and syncAlways false, let an error e arise while the request is
  derived: the log query is rejected with e; or the query succeeds and, the logs before
  it being resolved without error, a log that passes the test of checkForTransactions
  makes the registry or toChecksumAddress throw e; or the logs are all resolved and, the
  transactions before it being resolved without error, a transaction makes the registry
  throw e. Then the error is caught: processBlock dispatches BLOCK_PROCESSING, issues the
  query, dispatches exactly one BLOCK_FAILED carrying e, and returns normally, so
  BLOCK_PROCESSING stays dispatched and nothing reaches the caller. Moreover no
  invocation of processBlock at all, for any registry, provider, store, block and flag,
  lets an error escape: the task of one block can never abort the watcher that forks the
  tasks of the later blocks.
\<close>

theorem processing_error_is_reported_once:
  assumes "\<not> falsy (account st)"
    and "getPastLogs w3 (number blk) (number blk) watchedTopics = Inl e \<or>
         (\<exists>before log after.
             getPastLogs w3 (number blk) (number blk) watchedTopics = Inr (before @ log # after) \<and>
             list_all (\<lambda>l. log_affects_user (or_empty (account st)) l \<longrightarrow> log_resolves drz w3 l)
                      before \<and>
             log_affects_user (or_empty (account st)) log \<and>
             log_resolution_fails drz w3 log e) \<or>
         (\<exists>logs before tx after.
             getPastLogs w3 (number blk) (number blk) watchedTopics = Inr logs \<and>
             list_all (\<lambda>l. log_affects_user (or_empty (account st)) l \<longrightarrow> log_resolves drz w3 l)
                      logs \<and>
             transactions blk = before @ tx # after \<and>
             list_all (tx_resolves drz) before \<and>
             tx_resolution_fails drz tx e)"
  shows "processBlock drz w3 st blk False =
           ([Put (BLOCK_PROCESSING blk),
             Await (GetPastLogs (number blk) (number blk) watchedTopics),
             Put (BLOCK_FAILED e)],
            Inr ())
         \<and> snd (processBlock drz' w3' st' blk' syncAlways') = Inr ()"
proof -
  let ?acct = "or_empty (account st)"
  let ?query = "getPastLogs w3 (number blk) (number blk) watchedTopics"
  let ?failed = "([Put (BLOCK_PROCESSING blk),
                   Await (GetPastLogs (number blk) (number blk) watchedTopics),
                   Put (BLOCK_FAILED e)], Inr ())"
  from assms(2) consider
      (query) "?query = Inl e"
    | (log) before log after where
        "?query = Inr (before @ log # after)"
        "list_all (\<lambda>l. log_affects_user ?acct l \<longrightarrow> log_resolves drz w3 l) before"
        "log_affects_user ?acct log" "log_resolution_fails drz w3 log e"
    | (tx) logs before tx after where
        "?query = Inr logs"
        "list_all (\<lambda>l. log_affects_user ?acct l \<longrightarrow> log_resolves drz w3 l) logs"
        "transactions blk = before @ tx # after"
        "list_all (tx_resolves drz) before" "tx_resolution_fails drz tx e"
    by blast
  then have "processBlock drz w3 st blk False = ?failed"
  proof cases
    case query
    with assms(1) show ?thesis
      by (simp add: processBlock_selective)
  next
    case log
    have "contractsPendingSync drz w3 ?acct blk (before @ log # after) = Inl e"
      by (simp add: contractsPendingSync_def each_log_fails [OF log(2-4)])
    with assms(1) log(1) show ?thesis
      by (simp add: processBlock_selective)
  next
    case tx
    obtain p where "each_log drz w3 ?acct [] logs = Inr p"
      using each_log_resolves [OF tx(2)] by blast
    then have "contractsPendingSync drz w3 ?acct blk logs = Inl e"
      by (simp add: contractsPendingSync_def tx(3) for_txs_fails [OF tx(4,5)])
    with assms(1) tx(1) show ?thesis
      by (simp add: processBlock_selective)
  qed
  then show ?thesis
    by (simp add: processBlock_returns)
qed

theorem processing_error_is_reported_once_witness:
  "getPastLogs failing_web3 (number example_block) (number example_block) watchedTopics
     = Inl (Error ''timeout'') \<and>
   processBlock example_drizzle failing_web3 example_store example_block False =
     ([Put (BLOCK_PROCESSING example_block),
       Await (GetPastLogs 7 7 watchedTopics),
       Put (BLOCK_FAILED (Error ''timeout''))],
      Inr ()) \<and>
   log_affects_user account_lower transfer_log \<and>
   toChecksumAddress strict_web3 (address transfer_log) = Inl (Error ''invalid address'') \<and>
   processBlock example_drizzle strict_web3 example_store example_block False =
     ([Put (BLOCK_PROCESSING example_block),
       Await (GetPastLogs 7 7 watchedTopics),
       Put (BLOCK_FAILED (Error ''invalid address''))],
      Inr ()) \<and>
   findContractByAddress broken_drizzle (toLowerCase token_checksummed)
     = Inl (Error ''registry unavailable'') \<and>
   processBlock broken_drizzle quiet_web3 example_store token_block False =
     ([Put (BLOCK_PROCESSING token_block),
       Await (GetPastLogs 8 8 watchedTopics),
       Put (BLOCK_FAILED (Error ''registry unavailable''))],
      Inr ())"
proof -
  have acct: "\<not> falsy (account example_store)"
    by code_simp
  have n: "number example_block = 7" "number token_block = 8"
    by code_simp+
  have q: "getPastLogs failing_web3 (number example_block) (number example_block) watchedTopics
             = Inl (Error ''timeout'')"
    by code_simp
  from processing_error_is_reported_once [OF acct disjI1 [OF q], of example_drizzle]
  have one: "processBlock example_drizzle failing_web3 example_store example_block False =
     ([Put (BLOCK_PROCESSING example_block),
       Await (GetPastLogs 7 7 watchedTopics),
       Put (BLOCK_FAILED (Error ''timeout''))],
      Inr ())"
    unfolding n by (rule conjunct1)
  have l1: "getPastLogs strict_web3 (number example_block) (number example_block) watchedTopics
              = Inr ([] @ transfer_log # [])"
    by code_simp
  have l2: "list_all (\<lambda>l. log_affects_user (or_empty (account example_store)) l \<longrightarrow>
                          log_resolves example_drizzle strict_web3 l) []"
    by simp
  have l3: "log_affects_user (or_empty (account example_store)) transfer_log"
    by code_simp
  have l3': "log_affects_user account_lower transfer_log"
    by code_simp
  have l4: "log_resolution_fails example_drizzle strict_web3 transfer_log (Error ''invalid address'')"
    by code_simp
  have l5: "toChecksumAddress strict_web3 (address transfer_log) = Inl (Error ''invalid address'')"
    by code_simp
  from l1 l2 l3 l4 have
    "\<exists>before log after.
        getPastLogs strict_web3 (number example_block) (number example_block) watchedTopics
          = Inr (before @ log # after) \<and>
        list_all (\<lambda>l. log_affects_user (or_empty (account example_store)) l \<longrightarrow>
                       log_resolves example_drizzle strict_web3 l) before \<and>
        log_affects_user (or_empty (account example_store)) log \<and>
        log_resolution_fails example_drizzle strict_web3 log (Error ''invalid address'')"
    by blast
  from processing_error_is_reported_once [OF acct disjI2 [OF disjI1 [OF this]]]
  have two: "processBlock example_drizzle strict_web3 example_store example_block False =
     ([Put (BLOCK_PROCESSING example_block),
       Await (GetPastLogs 7 7 watchedTopics),
       Put (BLOCK_FAILED (Error ''invalid address''))],
      Inr ())"
    unfolding n by (rule conjunct1)
  have t1: "getPastLogs quiet_web3 (number token_block) (number token_block) watchedTopics = Inr []"
    by code_simp
  have t2: "list_all (\<lambda>l. log_affects_user (or_empty (account example_store)) l \<longrightarrow>
                          log_resolves broken_drizzle quiet_web3 l) []"
    by simp
  have t3: "transactions token_block =
              [] @ \<lparr>tx_from = Some account_lower, tx_to = Some token_checksummed\<rparr> # []"
    by code_simp
  have t4: "list_all (tx_resolves broken_drizzle) []"
    by simp
  have t5: "tx_resolution_fails broken_drizzle
              \<lparr>tx_from = Some account_lower, tx_to = Some token_checksummed\<rparr>
              (Error ''registry unavailable'')"
    by code_simp
  have t6: "findContractByAddress broken_drizzle (toLowerCase token_checksummed)
              = Inl (Error ''registry unavailable'')"
    by code_simp
  from t1 t2 t3 t4 t5 have
    "\<exists>logs before tx after.
        getPastLogs quiet_web3 (number token_block) (number token_block) watchedTopics = Inr logs \<and>
        list_all (\<lambda>l. log_affects_user (or_empty (account example_store)) l \<longrightarrow>
                       log_resolves broken_drizzle quiet_web3 l) logs \<and>
        transactions token_block = before @ tx # after \<and>
        list_all (tx_resolves broken_drizzle) before \<and>
        tx_resolution_fails broken_drizzle tx (Error ''registry unavailable'')"
    by blast
  from processing_error_is_reported_once [OF acct disjI2 [OF disjI2 [OF this]]]
  have three: "processBlock broken_drizzle quiet_web3 example_store token_block False =
     ([Put (BLOCK_PROCESSING token_block),
       Await (GetPastLogs 8 8 watchedTopics),
       Put (BLOCK_FAILED (Error ''registry unavailable''))],
      Inr ())"
    unfolding n by (rule conjunct1)
  from q one l3' l5 two t6 three show ?thesis
    by blast
qed

subsection \<open>Relevance of a log\<close>

text \<open>
  C2. The claim asks for a comparison that ignores letter case. checkForTransactions
  lower-cases the topic and leaves the account as the store spells it. At the account in
  its checksummed spelling, and a log whose topics[1] is that account padded to 32 bytes,
  the test fails: the log is skipped and contractsPendingSync stays empty. With the account
  in lower case the same log is recorded under the checksummed address of the log.
  (By \<open>mixed_case_account_matches_no_topic\<close> an account with an upper-case letter
  matches no topic at all.)
\<close>

theorem checksummed_account_misses_its_own_transfer:
  "account_topic = ''0x000000000000000000000000'' @ replace_0x (toLowerCase account_checksummed) \<and>
   toLowerCase account_checksummed = toLowerCase account_lower \<and>
   topics transfer_log = [transferTopic, account_topic, stranger_topic] \<and>
   \<not> transactionAffectsUser account_checksummed account_topic stranger_topic \<and>
   checkForTransactions example_drizzle example_web3 account_checksummed [] transfer_log = Inr [] \<and>
   checkForTransactions example_drizzle example_web3 account_lower [] transfer_log
     = Inr [(vault_checksummed, Some 1)]"
  by code_simp

subsection \<open>Spelling of addresses at the intersection\<close>

text \<open>
  C3, as the claim states it, fails: with a subscription that spells the vault in lower
  case and a transfer log of the vault, the key of contractsPendingSync is the checksummed
  spelling, the intersection is empty, and the request is empty.
\<close>

theorem lower_case_subscription_is_not_matched:
  "toLowerCase vault_checksummed = toLowerCase vault_lower \<and>
   subscriptions lower_case_store = [\<lparr>addresses = [vault_lower], params = ''balanceOf''\<rparr>] \<and>
   contractsPendingSync example_drizzle example_web3 account_lower example_block [transfer_log]
     = Inr [(vault_checksummed, Some 1)] \<and>
   intersection [vault_lower] [vault_checksummed] = [] \<and>
   processBlock example_drizzle example_web3 lower_case_store example_block False =
     ([Put (BLOCK_PROCESSING example_block),
       Await (GetPastLogs 7 7 watchedTopics),
       Put (BATCH_CALL_REQUEST [])],
      Inr ())"
  by code_simp

text \<open>
  C3, amended. Every key that the scan of the logs adds to contractsPendingSync is the
  checksummed spelling that toChecksumAddress gives for the address of one of the logs.
  Subscription addresses are taken as they are stored, and the intersection compares
  strings for equality: an address occurs in the request iff some subscription has this
  very string among its addresses and this very string is a key of contractsPendingSync.
  So two spellings that differ in letter case are not compared as equal.
\<close>

theorem intersection_matches_exact_spelling:
  "(each_log drz w3 acct pending logs = Inr pending' \<longrightarrow>
      set (object_keys pending') \<subseteq>
        set (object_keys pending) \<union>
        {k. \<exists>log \<in> set logs. toChecksumAddress w3 (address log) = Inr k}) \<and>
   ((\<exists>s' \<in> set (build_request keys subs). a \<in> set (addresses s')) \<longleftrightarrow>
      (\<exists>s \<in> set subs. a \<in> set (addresses s)) \<and> a \<in> set keys)"
proof -
  have "(\<exists>s' \<in> set (build_request keys subs). a \<in> set (addresses s')) \<longleftrightarrow>
      (\<exists>s \<in> set subs. a \<in> set (addresses s) \<inter> set keys)"
    by (auto simp: build_request_eq set_intersection)
  with each_log_keys [of drz w3 acct pending logs pending'] show ?thesis by blast
qed

theorem intersection_matches_exact_spelling_witness:
  "each_log example_drizzle example_web3 account_lower [] [transfer_log]
     = Inr [(vault_checksummed, Some 1)] \<and>
   toChecksumAddress example_web3 (address transfer_log) = Inr vault_checksummed \<and>
   object_keys [(vault_checksummed, Some (1::nat))] = [vault_checksummed] \<and>
   (\<exists>s \<in> set (subscriptions example_store). vault_checksummed \<in> set (addresses s)) \<and>
   vault_checksummed \<in> set [vault_checksummed] \<and>
   (\<exists>s' \<in> set (build_request [vault_checksummed] (subscriptions example_store)).
       vault_checksummed \<in> set (addresses s')) \<and>
   vault_lower \<notin> set [vault_checksummed] \<and>
   \<not> (\<exists>s' \<in> set (build_request [vault_checksummed] (subscriptions lower_case_store)).
       vault_lower \<in> set (addresses s'))"
proof -
  have h1: "each_log example_drizzle example_web3 account_lower [] [transfer_log]
              = Inr [(vault_checksummed, Some 1)]"
    by code_simp
  have h2: "toChecksumAddress example_web3 (address transfer_log) = Inr vault_checksummed"
    by code_simp
  have h2': "object_keys [(vault_checksummed, Some (1::nat))] = [vault_checksummed]"
    by (simp add: object_keys_def)
  have h3: "\<exists>s \<in> set (subscriptions example_store). vault_checksummed \<in> set (addresses s)"
    by code_simp
  have h4: "vault_checksummed \<in> set [vault_checksummed]"
    by simp
  have h5: "vault_lower \<notin> set [vault_checksummed]"
    by code_simp
  from intersection_matches_exact_spelling
         [of example_drizzle example_web3 account_lower "[]" "[transfer_log]"
             "[(vault_checksummed, Some 1)]" "[vault_checksummed]" "subscriptions example_store"
             vault_checksummed] h3 h4
  have found: "\<exists>s' \<in> set (build_request [vault_checksummed] (subscriptions example_store)).
                 vault_checksummed \<in> set (addresses s')"
    by blast
  from intersection_matches_exact_spelling
         [of example_drizzle example_web3 account_lower "[]" "[transfer_log]"
             "[(vault_checksummed, Some 1)]" "[vault_checksummed]" "subscriptions lower_case_store"
             vault_lower] h5
  have missed: "\<not> (\<exists>s' \<in> set (build_request [vault_checksummed] (subscriptions lower_case_store)).
                   vault_lower \<in> set (addresses s'))"
    by blast
  from h1 h2 h2' h3 h4 h5 found missed show ?thesis by blast
qed

subsection \<open>The stream of createBlockChannel\<close>




subsection \<open>Closing the stream of createBlockPollChannel\<close>

text \<open>
  C8. Whatever blockTracker.stop() does, resolve or reject, in whatever state the tracker
  is: closing the channel returns normally and leaves it closed; closing it again returns
  normally and changes nothing (stop is not called again); and the close that follows a
  failed start returns normally as well.
\<close>

theorem poll_channel_close_never_raises:
  "fst (poll_channel_close stop ch) = Inr () \<and>
   closed (snd (poll_channel_close stop ch)) \<and>
   poll_channel_close stop (snd (poll_channel_close stop ch)) =
     (Inr (), snd (poll_channel_close stop ch)) \<and>
   fst (createBlockPollChannel_handler stop syncAlways (Start_rejected e) ch) = Inr ()"
  by (simp add: poll_channel_close_def channel_close_def poll_unsubscribe_def promise_catch_def
                createBlockPollChannel_handler_def emit_def then_do_def
           split: prod.splits sum.splits)

theorem poll_channel_close_never_raises_witness:
  "fst (rejecting_stop 0) = Inl (Error ''no outstanding subscription'') \<and>
   poll_channel_close rejecting_stop (new_channel 0 :: ((nat, string) action, nat) channel) =
     (Inr (), \<lparr>closed = True, taker = False, emitted = [], resource = 1\<rparr>) \<and>
   poll_channel_close rejecting_stop \<lparr>closed = True, taker = False, emitted = [] :: (nat, string) action list, resource = 1\<rparr> =
     (Inr (), \<lparr>closed = True, taker = False, emitted = [], resource = 1\<rparr>)"
proof -
  have rejects: "fst (rejecting_stop 0) = Inl (Error ''no outstanding subscription'')"
    by code_simp
  have after: "snd (poll_channel_close rejecting_stop (new_channel 0 :: ((nat, string) action, nat) channel)) =
                 \<lparr>closed = True, taker = False, emitted = [], resource = 1\<rparr>"
    by code_simp
  from poll_channel_close_never_raises [of rejecting_stop "new_channel 0 :: ((nat, string) action, nat) channel"]
  have once: "fst (poll_channel_close rejecting_stop (new_channel 0 :: ((nat, string) action, nat) channel)) = Inr ()"
    and twice: "poll_channel_close rejecting_stop \<lparr>closed = True, taker = False, emitted = [] :: (nat, string) action list, resource = 1\<rparr> =
                 (Inr (), \<lparr>closed = True, taker = False, emitted = [], resource = 1\<rparr>)"
    unfolding after by blast+
  from once after
  have "poll_channel_close rejecting_stop (new_channel 0 :: ((nat, string) action, nat) channel) =
          (Inr (), \<lparr>closed = True, taker = False, emitted = [], resource = 1\<rparr>)"
    by (simp add: prod_eq_iff)
  with rejects twice show ?thesis by blast
qed

subsection \<open>updateAccountEth and its triggers\<close>

text \<open>
  C9. updateAccountEth first dispatches ACCOUNT_BALANCES_FETCHING. Without an account or
  without web3 it does nothing more. Otherwise it asks the provider for the balance of the
  account and, with the balance it receives, dispatches ETH_BALANCE_UPDATED. blocksSaga
  starts it with takeEvery on APP_READY and on BLOCK_RECEIVED, and on no other action
  type; in particular not on BLOCK_FOUND.
\<close>

theorem updateAccountEth_emits_and_triggers:
  "(\<exists>rest outcome. updateAccountEth w3 st = (Put ACCOUNT_BALANCES_FETCHING # rest, outcome)) \<and>
   (falsy (account st) \<or> w3 = None \<longrightarrow>
      updateAccountEth w3 st = ([Put ACCOUNT_BALANCES_FETCHING], Inr ())) \<and>
   (\<not> falsy (account st) \<and> w3 = Some w \<and> getBalance w (or_empty (account st)) = Inr ethBalance \<longrightarrow>
      updateAccountEth w3 st =
        ([Put ACCOUNT_BALANCES_FETCHING,
          Await (GetBalance (or_empty (account st))),
          Put (ETH_BALANCE_UPDATED ethBalance)], Inr ())) \<and>
   (TakeEvery, ''APP_READY'', UpdateAccountEth) \<in> set blocksSaga \<and>
   (TakeEvery, ''BLOCK_RECEIVED'', UpdateAccountEth) \<in> set blocksSaga \<and>
   (UpdateAccountEth \<in> set (triggered action_type) \<longleftrightarrow>
      action_type = ''APP_READY'' \<or> action_type = ''BLOCK_RECEIVED'') \<and>
   UpdateAccountEth \<notin> set (triggered ''BLOCK_FOUND'')"
proof -
  have first: "\<exists>rest outcome. updateAccountEth w3 st = (Put ACCOUNT_BALANCES_FETCHING # rest, outcome)"
    by (simp add: updateAccountEth_def and_then_def put_def done_with_def await_def
             split: option.splits sum.splits prod.splits)
  have noop: "falsy (account st) \<or> w3 = None \<longrightarrow>
      updateAccountEth w3 st = ([Put ACCOUNT_BALANCES_FETCHING], Inr ())"
    by (auto simp: updateAccountEth_def and_then_def put_def done_with_def)
  have fetch: "\<not> falsy (account st) \<and> w3 = Some w \<and> getBalance w (or_empty (account st)) = Inr ethBalance \<longrightarrow>
      updateAccountEth w3 st =
        ([Put ACCOUNT_BALANCES_FETCHING,
          Await (GetBalance (or_empty (account st))),
          Put (ETH_BALANCE_UPDATED ethBalance)], Inr ())"
    by (simp add: updateAccountEth_def and_then_def put_def await_def)
  have regs: "(TakeEvery, ''APP_READY'', UpdateAccountEth) \<in> set blocksSaga"
       "(TakeEvery, ''BLOCK_RECEIVED'', UpdateAccountEth) \<in> set blocksSaga"
    by (simp_all add: blocksSaga_def)
  have not_found: "UpdateAccountEth \<notin> set (triggered ''BLOCK_FOUND'')"
    by (simp add: triggered_UpdateAccountEth)
  from first noop fetch regs not_found triggered_UpdateAccountEth [of action_type]
  show ?thesis by blast
qed

theorem updateAccountEth_emits_and_triggers_witness:
  "\<not> falsy (account example_store) \<and>
   getBalance example_web3 (or_empty (account example_store)) = Inr 42 \<and>
   updateAccountEth (Some example_web3) example_store =
     ([Put ACCOUNT_BALANCES_FETCHING, Await (GetBalance account_lower), Put (ETH_BALANCE_UPDATED 42)],
      Inr ()) \<and>
   falsy (account no_account_store) \<and>
   updateAccountEth (Some example_web3) no_account_store = ([Put ACCOUNT_BALANCES_FETCHING], Inr ()) \<and>
   triggered ''BLOCK_RECEIVED'' = [ProcessBlockHeader, UpdateAccountEth] \<and>
   triggered ''BLOCK_FOUND'' = [ProcessBlock]"
proof -
  have h1: "\<not> falsy (account example_store)"
    by code_simp
  have h2: "getBalance example_web3 (or_empty (account example_store)) = Inr 42"
    by code_simp
  have a: "or_empty (account example_store) = account_lower"
    by code_simp
  have h3: "falsy (account no_account_store)"
    by code_simp
  have t: "triggered ''BLOCK_RECEIVED'' = [ProcessBlockHeader, UpdateAccountEth]"
          "triggered ''BLOCK_FOUND'' = [ProcessBlock]"
    by code_simp+
  from updateAccountEth_emits_and_triggers
         [of "Some example_web3" example_store example_web3 42] h1 h2
  have fetch: "updateAccountEth (Some example_web3) example_store =
     ([Put ACCOUNT_BALANCES_FETCHING, Await (GetBalance account_lower), Put (ETH_BALANCE_UPDATED 42)],
      Inr ())"
    unfolding a by blast
  from updateAccountEth_emits_and_triggers
         [of "Some example_web3" no_account_store] h3
  have noop: "updateAccountEth (Some example_web3) no_account_store
                 = ([Put ACCOUNT_BALANCES_FETCHING], Inr ())"
    by blast
  from h1 h2 h3 t fetch noop show ?thesis by blast
qed

end
